theory Spec2Isabelle
  imports Main
begin

section \<open>Go string helpers used by the packages\<close>

text \<open>
  The functions of Go's \<^verbatim>\<open>strings\<close> package that the repository calls, on
  \<^typ>\<open>string\<close> (a list of bytes, as a Go string is).
\<close>

definition HasPrefix :: "string \<Rightarrow> string \<Rightarrow> bool" where
  "HasPrefix s pre = (length pre \<le> length s \<and> take (length pre) s = pre)"

definition HasSuffix :: "string \<Rightarrow> string \<Rightarrow> bool" where
  "HasSuffix s suf = (length suf \<le> length s \<and> drop (length s - length suf) s = suf)"

definition TrimSuffix :: "string \<Rightarrow> string \<Rightarrow> string" where
  "TrimSuffix s suf = (if HasSuffix s suf then take (length s - length suf) s else s)"

text \<open>\<^verbatim>\<open>strings.Contains(s, substr)\<close>: \<open>substr\<close> occurs at some offset of \<open>s\<close>.\<close>

fun Contains :: "string \<Rightarrow> string \<Rightarrow> bool" where
  "Contains [] sub = HasPrefix [] sub"
| "Contains (c # s) sub = (HasPrefix (c # s) sub \<or> Contains s sub)"

text \<open>
  \<^verbatim>\<open>strings.Split(s, sep)\<close> for a separator of one byte, which is the only way
  the repository calls it (\<open>pathSep\<close>). The second argument is the segment read so far.
\<close>

fun Split_from :: "char \<Rightarrow> string \<Rightarrow> string \<Rightarrow> string list" where
  "Split_from sep seg [] = [seg]"
| "Split_from sep seg (c # s) =
     (if c = sep then seg # Split_from sep [] s else Split_from sep (seg @ [c]) s)"

definition Split :: "string \<Rightarrow> char \<Rightarrow> string list" where
  "Split s sep = Split_from sep [] s"

text \<open>The decimal digits of an integer, as \<^verbatim>\<open>fmt.Sprint\<close> prints a Go \<open>int\<close>.\<close>

fun show_nat :: "nat \<Rightarrow> string" where
  "show_nat n =
     (if n < 10 then [''0123456789'' ! n]
      else show_nat (n div 10) @ [''0123456789'' ! (n mod 10)])"

declare show_nat.simps [simp del]

definition show_int :: "int \<Rightarrow> string" where
  "show_int i = (if i < 0 then CHR ''-'' # show_nat (nat (- i)) else show_nat (nat i))"


section \<open>Package octree: the tree of OpenConfig paths\<close>

subsection \<open>Paths\<close>

definition pathSep :: string where
  "pathSep = ''/''"

definition RootName :: string where
  "RootName = ''root''"

datatype octree_error =
    InvalidPath string
  | CouldNotExpand octree_error
  | NoSuchNode string
  | PayloadMissing string
  | ParentMissing string string

definition normalizePath :: "string \<Rightarrow> octree_error + string" where
  "normalizePath path =
     (if path = pathSep then Inr RootName
      else if Contains path (pathSep @ pathSep) then Inl (InvalidPath path)
      else let path' = (if HasSuffix path pathSep then TrimSuffix path pathSep else path)
           in if HasPrefix path' pathSep then Inr (RootName @ path') else Inr path')"

definition expandPath :: "string \<Rightarrow> octree_error + string list" where
  "expandPath path =
     (case normalizePath path of
        Inl e \<Rightarrow> Inl (CouldNotExpand e)
      | Inr p \<Rightarrow> Inr (Split p (hd pathSep)))"

subsection \<open>The adjacency list (graph.go)\<close>

record AdjList =
  nodes :: "string list"
  edges :: "string \<rightharpoonup> string list"
  weight :: "string \<times> string \<rightharpoonup> int"

definition NewAdjList :: AdjList where
  "NewAdjList = \<lparr>nodes = [], edges = Map.empty, weight = Map.empty\<rparr>"

definition AddNode :: "AdjList \<Rightarrow> string \<Rightarrow> AdjList" where
  "AddNode g n =
     (case edges g n of
        Some _ \<Rightarrow> g
      | None \<Rightarrow> g\<lparr>nodes := nodes g @ [n], edges := (edges g)(n \<mapsto> [])\<rparr>)"

definition AddWeightedEdge :: "AdjList \<Rightarrow> string \<Rightarrow> string \<Rightarrow> int \<Rightarrow> AdjList" where
  "AddWeightedEdge g a z w =
     (let g1 = AddNode g a;
          g2 = AddNode g1 z;
          g3 = g2\<lparr>weight := (weight g2)((a, z) \<mapsto> w)\<rparr>;
          succs = (case edges g3 a of Some ns \<Rightarrow> ns | None \<Rightarrow> [])
      in if z \<in> set succs then g3 else g3\<lparr>edges := (edges g3)(a \<mapsto> succs @ [z])\<rparr>)"

definition AddEdge :: "AdjList \<Rightarrow> string \<Rightarrow> string \<Rightarrow> AdjList" where
  "AddEdge g a z = AddWeightedEdge g a z 1"

definition Neighbors :: "AdjList \<Rightarrow> string \<Rightarrow> string list" where
  "Neighbors g a = (case edges g a of Some ns \<Rightarrow> ns | None \<Rightarrow> [])"

subsection \<open>The tree\<close>

text \<open>
  The fields of the \<open>OpenConfigNode\<close> message that the package reads: the path of its
  subpath, the identifier of the bound transformation (empty when none is declared, as a
  proto3 string is), and the children.
\<close>

datatype OpenConfigNode =
  OpenConfigNode (subpath: string) (bind: string) (children: "OpenConfigNode list")

record OcTree =
  graph :: AdjList
  payloads :: "string \<rightharpoonup> OpenConfigNode"

definition IsValid :: "OcTree \<Rightarrow> string \<Rightarrow> bool" where
  "IsValid t path =
     (case normalizePath path of
        Inl _ \<Rightarrow> False
      | Inr p \<Rightarrow> edges (graph t) p \<noteq> None)"

text \<open>\<open>addChild\<close> returns the tree together with the error, if any.\<close>

definition addChild :: "OcTree \<Rightarrow> string \<Rightarrow> string \<Rightarrow> OcTree \<times> octree_error option" where
  "addChild t parent child =
     (if \<not> IsValid t parent then (t, Some (ParentMissing child parent))
      else (t\<lparr>graph := AddEdge (graph t) parent child\<rparr>, None))"

definition children_of :: "OcTree \<Rightarrow> string \<Rightarrow> octree_error + string list" where
  "children_of t parent =
     (if \<not> IsValid t parent then Inl (NoSuchNode parent)
      else Inr (Neighbors (graph t) parent))"

definition getPayload :: "OcTree \<Rightarrow> string \<Rightarrow> octree_error + OpenConfigNode" where
  "getPayload t node =
     (if \<not> IsValid t node then Inl (NoSuchNode node)
      else case payloads t node of
             Some val \<Rightarrow> Inr val
           | None \<Rightarrow> Inl (PayloadMissing node))"

definition setPayload :: "OcTree \<Rightarrow> string \<Rightarrow> OpenConfigNode \<Rightarrow> OcTree \<times> octree_error option" where
  "setPayload t node payload =
     (if \<not> IsValid t node then (t, Some (NoSuchNode node))
      else (t\<lparr>payloads := (payloads t)(node \<mapsto> payload)\<rparr>, None))"

text \<open>
  The loop of \<open>build\<close> over the segments of the subpath: every segment extends the full
  path and is added as a child of the node before it. The error of \<open>addChild\<close> is
  dropped, as the source drops it. The result is the tree and the last full path.
\<close>

fun build_path :: "OcTree \<Rightarrow> string \<Rightarrow> string \<Rightarrow> string list \<Rightarrow> OcTree \<times> string" where
  "build_path t parent fullPath [] = (t, fullPath)"
| "build_path t parent fullPath (node # rest) =
     (let fullPath' = fullPath @ pathSep @ node;
          t' = fst (addChild t parent fullPath')
      in build_path t' fullPath' fullPath' rest)"

fun build :: "OcTree \<Rightarrow> string \<Rightarrow> OpenConfigNode \<Rightarrow> OcTree \<times> octree_error option"
  and build_children :: "OcTree \<Rightarrow> string \<Rightarrow> OpenConfigNode list \<Rightarrow> OcTree \<times> octree_error option"
where
  "build t parent (OpenConfigNode sp b cs) =
     (case expandPath sp of
        Inl e \<Rightarrow> (t, Some e)
      | Inr segs \<Rightarrow>
          (let absolute = (segs \<noteq> [] \<and> hd segs = RootName);
               parent' = (if absolute then RootName else parent);
               segs' = (if absolute then tl segs else segs);
               (t1, fullPath) = build_path t parent' parent' segs'
           in case setPayload t1 fullPath (OpenConfigNode sp b cs) of
                (t2, Some e) \<Rightarrow> (t2, Some e)
              | (t2, None) \<Rightarrow> build_children t2 fullPath cs))"
| "build_children t parent [] = (t, None)"
| "build_children t parent (child # rest) =
     (case build t parent child of
        (t', Some e) \<Rightarrow> (t', Some e)
      | (t', None) \<Rightarrow> build_children t' parent rest)"

text \<open>\<open>NewTree\<close> takes the nodes of the \<open>Mappings\<close> message.\<close>

definition NewTree :: "OpenConfigNode list \<Rightarrow> OcTree \<times> octree_error option" where
  "NewTree mappings =
     build_children \<lparr>graph = AddNode NewAdjList RootName, payloads = Map.empty\<rparr> RootName mappings"

definition GetTransformationIdentifier :: "OcTree \<Rightarrow> string \<Rightarrow> octree_error + string" where
  "GetTransformationIdentifier t path =
     (case normalizePath path of
        Inl e \<Rightarrow> Inl e
      | Inr node \<Rightarrow>
          (case getPayload t node of
             Inl e \<Rightarrow> Inl e
           | Inr payload \<Rightarrow> Inr (bind payload)))"


section \<open>Package oparse: expressions and their evaluation\<close>

subsection \<open>Values and results\<close>

text \<open>
  The evaluator works on Go values of type \<^verbatim>\<open>interface{}\<close>. The dynamic types that
  the code tells apart are \<open>int\<close>, \<open>float64\<close>, \<open>string\<close> and the nil interface; a
  value of any other dynamic type is \<open>VOther\<close>, carrying its default text (what
  \<^verbatim>\<open>fmt.Sprint\<close> prints for it).

  The arithmetic of \<open>float64\<close> is the Go runtime's, not this repository's: it is a
  parameter \<open>ops\<close> of the evaluator, over an arbitrary type \<open>'f\<close> of floats.
\<close>

datatype 'f val = VInt int | VFloat 'f | VString string | VNil | VOther string

record 'f float64_ops =
  f_add :: "'f \<Rightarrow> 'f \<Rightarrow> 'f"
  f_sub :: "'f \<Rightarrow> 'f \<Rightarrow> 'f"
  f_mul :: "'f \<Rightarrow> 'f \<Rightarrow> 'f"
  f_div :: "'f \<Rightarrow> 'f \<Rightarrow> 'f"
  f_pow :: "'f \<Rightarrow> 'f \<Rightarrow> 'f"
  f_is_zero :: "'f \<Rightarrow> bool"
  f_of_int :: "int \<Rightarrow> 'f"
  f_sprint :: "'f \<Rightarrow> string"

datatype Operator = OpMul | OpDiv | OpAdd | OpSub

text \<open>
  Errors are values. The messages of the source are constructors here; the text of an
  error that an injected collaborator returns (the function caller, the resolver, the
  parser library) is kept as a string.
\<close>

datatype error =
    DivisionByZero
  | UnsupportedStringOperator Operator
  | UnsupportedType
  | NoSuchVariable string
  | CouldNotCast string
  | CallerError string
  | CouldNotEvaluate error
  | CouldNotParse string string
  | FunctionNotDefined string
  | UnresolvableNocPath string string
  | ResolveFailed string string error
  | SubTransformationFailed string error
  | Undefined string
  | NoneEvaluable string
  | NoTransformationForPath string octree_error
  | TransformationNotFound string string

text \<open>
  A call returns a value, returns an error, or does not return: a failed type assertion
  panics and \<^verbatim>\<open>log.Fatal\<close> exits the process.
\<close>

datatype crash = TypeAssertionPanic | FatalIntOperand | CalleePanic

datatype 'a outcome = Ok 'a | Err error | Crash crash

fun is_int :: "'f val \<Rightarrow> bool" where
  "is_int (VInt _) = True"
| "is_int _ = False"


fun is_string :: "'f val \<Rightarrow> bool" where
  "is_string (VString _) = True"
| "is_string _ = False"

text \<open>\<^verbatim>\<open>fmt.Sprint\<close> of one value; how a \<open>float64\<close> prints is part of \<open>ops\<close>.\<close>

fun Sprint :: "'f float64_ops \<Rightarrow> 'f val \<Rightarrow> string" where
  "Sprint ops (VString s) = s"
| "Sprint ops (VFloat x) = f_sprint ops x"
| "Sprint ops VNil = ''<nil>''"
| "Sprint ops (VOther s) = s"
| "Sprint ops (VInt i) = show_int i"

subsection \<open>The syntax tree\<close>

text \<open>
  The grammar structs. A \<open>Value\<close> has five optional fields of which the parser sets one;
  \<open>NoValue\<close> is the struct with none set. The pointers \<open>Base\<close>, \<open>Left\<close>, \<open>Factor\<close>
  and \<open>Term\<close> are mandatory in the grammar, so a parsed tree has them.
\<close>

datatype 'f Value =
    Number 'f
  | StrLiteral string
  | FunctionCall "'f Function"
  | Variable string
  | Subexpression "'f Expression"
  | NoValue
and 'f Function = Function string "'f Expression list"
and 'f Factor = Factor "'f Value" "'f Value option"
and 'f OpFactor = OpFactor Operator "'f Factor"
and 'f Term = Term "'f Factor" "'f OpFactor list"
and 'f OpTerm = OpTerm Operator "'f Term"
and 'f Expression = Expression "'f Term" "'f OpTerm list"

type_synonym 'f Context = "string \<rightharpoonup> 'f val"

type_synonym 'f FunctionCaller = "string \<Rightarrow> 'f val list \<Rightarrow> 'f val outcome"

subsection \<open>Evaluation\<close>

text \<open>
  \<open>Operator.eval\<close>. With an \<open>int\<close> operand the source calls \<^verbatim>\<open>log.Fatal\<close>. The four
  operators are all the values of the type here, so the source's last resort on two
  floats (the error of an unsupported float operator) has no case.
\<close>

definition Operator_eval :: "'f float64_ops \<Rightarrow> Operator \<Rightarrow> 'f val \<Rightarrow> 'f val \<Rightarrow> 'f val outcome" where
  "Operator_eval ops o' l r =
     (if is_int l \<or> is_int r then Crash FatalIntOperand
      else case (l, r) of
        (VFloat lFloat, VFloat rFloat) \<Rightarrow>
          (case o' of
             OpMul \<Rightarrow> Ok (VFloat (f_mul ops lFloat rFloat))
           | OpDiv \<Rightarrow> if f_is_zero ops rFloat then Err DivisionByZero
                      else Ok (VFloat (f_div ops lFloat rFloat))
           | OpAdd \<Rightarrow> Ok (VFloat (f_add ops lFloat rFloat))
           | OpSub \<Rightarrow> Ok (VFloat (f_sub ops lFloat rFloat)))
      | _ \<Rightarrow>
          if is_string l \<or> is_string r then
            (if o' = OpAdd then Ok (VString (Sprint ops l @ Sprint ops r))
             else Err (UnsupportedStringOperator o'))
          else Err UnsupportedType)"

text \<open>The conversion of a variable's value: \<open>int\<close> to float, float and string as they are.\<close>

fun cast_variable :: "'f float64_ops \<Rightarrow> string \<Rightarrow> 'f val \<Rightarrow> 'f val outcome" where
  "cast_variable ops name (VInt i) = Ok (VFloat (f_of_int ops i))"
| "cast_variable ops name (VFloat x) = Ok (VFloat x)"
| "cast_variable ops name (VString s) = Ok (VString s)"
| "cast_variable ops name v = Err (CouldNotCast name)"

text \<open>The conversion of a function's result: \<open>int\<close> to float, anything else as it is.\<close>

fun widen_result :: "'f float64_ops \<Rightarrow> 'f val \<Rightarrow> 'f val" where
  "widen_result ops (VInt i) = VFloat (f_of_int ops i)"
| "widen_result ops v = v"

text \<open>\<^verbatim>\<open>math.Pow(b.(float64), exponentEval.(float64))\<close>: each assertion panics on a
  value that is not a \<open>float64\<close>.\<close>

fun pow_assert :: "'f float64_ops \<Rightarrow> 'f val \<Rightarrow> 'f val \<Rightarrow> 'f val outcome" where
  "pow_assert ops (VFloat b) (VFloat e) = Ok (VFloat (f_pow ops b e))"
| "pow_assert ops b e = Crash TypeAssertionPanic"

fun Value_eval :: "'f float64_ops \<Rightarrow> 'f Context \<Rightarrow> 'f FunctionCaller \<Rightarrow> 'f Value \<Rightarrow> 'f val outcome"
  and Function_eval :: "'f float64_ops \<Rightarrow> 'f Context \<Rightarrow> 'f FunctionCaller \<Rightarrow> 'f Function \<Rightarrow> 'f val outcome"
  and Args_eval :: "'f float64_ops \<Rightarrow> 'f Context \<Rightarrow> 'f FunctionCaller \<Rightarrow> 'f val list \<Rightarrow> 'f Expression list \<Rightarrow> 'f val list outcome"
  and Factor_eval :: "'f float64_ops \<Rightarrow> 'f Context \<Rightarrow> 'f FunctionCaller \<Rightarrow> 'f Factor \<Rightarrow> 'f val outcome"
  and Term_eval :: "'f float64_ops \<Rightarrow> 'f Context \<Rightarrow> 'f FunctionCaller \<Rightarrow> 'f Term \<Rightarrow> 'f val outcome"
  and Term_loop :: "'f float64_ops \<Rightarrow> 'f Context \<Rightarrow> 'f FunctionCaller \<Rightarrow> 'f val \<Rightarrow> 'f OpFactor list \<Rightarrow> 'f val outcome"
  and Expression_eval :: "'f float64_ops \<Rightarrow> 'f Context \<Rightarrow> 'f FunctionCaller \<Rightarrow> 'f Expression \<Rightarrow> 'f val outcome"
  and Expression_loop :: "'f float64_ops \<Rightarrow> 'f Context \<Rightarrow> 'f FunctionCaller \<Rightarrow> 'f val \<Rightarrow> 'f OpTerm list \<Rightarrow> 'f val outcome"
where
  "Value_eval ops ctx caller (Number x) = Ok (VFloat x)"
| "Value_eval ops ctx caller (StrLiteral s) = Ok (VString s)"
| "Value_eval ops ctx caller (Variable name) =
     (case ctx name of
        None \<Rightarrow> Err (NoSuchVariable name)
      | Some v \<Rightarrow> cast_variable ops name v)"
| "Value_eval ops ctx caller (FunctionCall f) = Function_eval ops ctx caller f"
| "Value_eval ops ctx caller (Subexpression e) = Expression_eval ops ctx caller e"
| "Value_eval ops ctx caller NoValue = Ok VNil"
| "Function_eval ops ctx caller (Function name args) =
     (case Args_eval ops ctx caller [] args of
        Err e \<Rightarrow> Err e
      | Crash c \<Rightarrow> Crash c
      | Ok vs \<Rightarrow>
          (case caller name vs of
             Err e \<Rightarrow> Err e
           | Crash c \<Rightarrow> Crash c
           | Ok result \<Rightarrow> Ok (widen_result ops result)))"
| "Args_eval ops ctx caller vs [] = Ok vs"
| "Args_eval ops ctx caller vs (arg # rest) =
     (case Expression_eval ops ctx caller arg of
        Err e \<Rightarrow> Err e
      | Crash c \<Rightarrow> Crash c
      | Ok argEval \<Rightarrow> Args_eval ops ctx caller (vs @ [argEval]) rest)"
| "Factor_eval ops ctx caller (Factor base exponent) =
     (case Value_eval ops ctx caller base of
        Err e \<Rightarrow> Err e
      | Crash c \<Rightarrow> Crash c
      | Ok b \<Rightarrow>
          (case exponent of
             None \<Rightarrow> Ok b
           | Some ex \<Rightarrow>
               (case Value_eval ops ctx caller ex of
                  Err e \<Rightarrow> Err e
                | Crash c \<Rightarrow> Crash c
                | Ok exponentEval \<Rightarrow> pow_assert ops b exponentEval)))"
| "Term_eval ops ctx caller (Term left right) =
     (case Factor_eval ops ctx caller left of
        Err e \<Rightarrow> Err e
      | Crash c \<Rightarrow> Crash c
      | Ok n \<Rightarrow> Term_loop ops ctx caller n right)"
| "Term_loop ops ctx caller n [] = Ok n"
| "Term_loop ops ctx caller n (OpFactor o' f # rest) =
     (case Factor_eval ops ctx caller f of
        Err e \<Rightarrow> Err e
      | Crash c \<Rightarrow> Crash c
      | Ok rFactorEval \<Rightarrow>
          (case Operator_eval ops o' n rFactorEval of
             Err e \<Rightarrow> Err e
           | Crash c \<Rightarrow> Crash c
           | Ok n' \<Rightarrow> Term_loop ops ctx caller n' rest))"
| "Expression_eval ops ctx caller (Expression left right) =
     (case Term_eval ops ctx caller left of
        Err e \<Rightarrow> Err e
      | Crash c \<Rightarrow> Crash c
      | Ok l \<Rightarrow> Expression_loop ops ctx caller l right)"
| "Expression_loop ops ctx caller l [] = Ok l"
| "Expression_loop ops ctx caller l (OpTerm o' t # rest) =
     (case Term_eval ops ctx caller t of
        Err e \<Rightarrow> Err e
      | Crash c \<Rightarrow> Crash c
      | Ok rEval \<Rightarrow>
          (case Operator_eval ops o' l rEval of
             Err e \<Rightarrow> Err e
           | Crash c \<Rightarrow> Crash c
           | Ok l' \<Rightarrow> Expression_loop ops ctx caller l' rest))"

text \<open>\<open>Eval\<close> wraps the error of the evaluation.\<close>

definition Eval :: "'f float64_ops \<Rightarrow> 'f Expression \<Rightarrow> 'f Context \<Rightarrow> 'f FunctionCaller \<Rightarrow> 'f val outcome" where
  "Eval ops expression ctx caller =
     (case Expression_eval ops ctx caller expression of
        Err e \<Rightarrow> Err (CouldNotEvaluate e)
      | Crash c \<Rightarrow> Crash c
      | Ok result \<Rightarrow> Ok result)"

subsection \<open>Identifiers\<close>

text \<open>The variables and the function names of an expression, each in source order.\<close>

fun Value_identifiers :: "'f Value \<Rightarrow> string list \<times> string list"
  and Function_identifiers :: "'f Function \<Rightarrow> string list \<times> string list"
  and Args_identifiers :: "'f Expression list \<Rightarrow> string list \<times> string list"
  and Factor_identifiers :: "'f Factor \<Rightarrow> string list \<times> string list"
  and Term_identifiers :: "'f Term \<Rightarrow> string list \<times> string list"
  and OpFactors_identifiers :: "'f OpFactor list \<Rightarrow> string list \<times> string list"
  and Identifiers :: "'f Expression \<Rightarrow> string list \<times> string list"
  and OpTerms_identifiers :: "'f OpTerm list \<Rightarrow> string list \<times> string list"
where
  "Value_identifiers (Variable name) = ([name], [])"
| "Value_identifiers (FunctionCall f) = Function_identifiers f"
| "Value_identifiers (Subexpression e) = Identifiers e"
| "Value_identifiers (Number x) = ([], [])"
| "Value_identifiers (StrLiteral s) = ([], [])"
| "Value_identifiers NoValue = ([], [])"
| "Function_identifiers (Function name args) =
     (let (argVars, argFuncs) = Args_identifiers args in (argVars, name # argFuncs))"
| "Args_identifiers [] = ([], [])"
| "Args_identifiers (arg # rest) =
     (let (argVars, argFuncs) = Identifiers arg; (vs, fs) = Args_identifiers rest
      in (argVars @ vs, argFuncs @ fs))"
| "Factor_identifiers (Factor base exponent) =
     (let (variables, functions) = Value_identifiers base
      in case exponent of
           None \<Rightarrow> (variables, functions)
         | Some ex \<Rightarrow>
             (let (expVars, expFuncs) = Value_identifiers ex
              in (variables @ expVars, functions @ expFuncs)))"
| "Term_identifiers (Term left right) =
     (let (variables, functions) = Factor_identifiers left; (vs, fs) = OpFactors_identifiers right
      in (variables @ vs, functions @ fs))"
| "OpFactors_identifiers [] = ([], [])"
| "OpFactors_identifiers (OpFactor o' f # rest) =
     (let (rFactorVars, rFactorFuncs) = Factor_identifiers f; (vs, fs) = OpFactors_identifiers rest
      in (rFactorVars @ vs, rFactorFuncs @ fs))"
| "Identifiers (Expression left right) =
     (let (variables, functions) = Term_identifiers left; (vs, fs) = OpTerms_identifiers right
      in (variables @ vs, functions @ fs))"
| "OpTerms_identifiers [] = ([], [])"
| "OpTerms_identifiers (OpTerm o' t # rest) =
     (let (opTermVars, opTermFuncs) = Term_identifiers t; (vs, fs) = OpTerms_identifiers rest
      in (opTermVars @ vs, opTermFuncs @ fs))"


section \<open>Package orismologer: the translation engine\<close>

subsection \<open>Configuration messages and the engine\<close>

text \<open>The fields of the proto messages that the engine reads.\<close>

record NocPath =
  np_bind :: string
  oids :: "string list"
  samples :: "string list"

record Transformation =
  t_bind :: string
  expressions :: "string list"
  noc_paths :: "NocPath list"

record VendorOids =
  vendor_root :: string
  vendors :: "string \<rightharpoonup> string"

text \<open>
  The engine. The resolver and the function library are injected, as in the source; the
  library is the pair of its two methods.
\<close>

record 'f Orismologer =
  mappings :: OcTree
  transformations :: "string \<rightharpoonup> Transformation"
  vendorInfo :: VendorOids
  nocPathResolver :: "NocPath \<Rightarrow> string \<Rightarrow> 'f val outcome"
  functions_Contains :: "string \<Rightarrow> bool"
  functions_Call :: "'f FunctionCaller"

text \<open>
  What the engine takes from outside the repository: the arithmetic of \<open>float64\<close> and
  the parser that the participle library builds from the grammar (\<open>Inl\<close> is the message
  of its error).
\<close>

record 'f platform =
  float64 :: "'f float64_ops"
  participle :: "string \<Rightarrow> string + 'f Expression"

text \<open>\<open>Parse\<close> wraps the error of the library's parser.\<close>

definition Parse :: "'f platform \<Rightarrow> string \<Rightarrow> error + 'f Expression" where
  "Parse pf input =
     (case participle pf input of
        Inl msg \<Rightarrow> Inl (CouldNotParse input msg)
      | Inr expression \<Rightarrow> Inr expression)"

subsection \<open>The vendor filter\<close>

text \<open>\<open>canResolve\<close> reads only the \<open>vendorInfo\<close> of its receiver.\<close>

fun canResolve_oids :: "VendorOids \<Rightarrow> string \<Rightarrow> string list \<Rightarrow> bool" where
  "canResolve_oids vi vendor [] = False"
| "canResolve_oids vi vendor (oid # rest) =
     (if \<not> HasPrefix oid (vendor_root vi) then True
      else case vendors vi vendor of
             None \<Rightarrow> False
           | Some vendorOid \<Rightarrow>
               if HasPrefix oid (vendor_root vi @ ''.'' @ vendorOid) then True
               else canResolve_oids vi vendor rest)"

definition canResolve :: "VendorOids \<Rightarrow> NocPath \<Rightarrow> string \<Rightarrow> bool" where
  "canResolve vi nocPath vendor = canResolve_oids vi vendor (oids nocPath)"

subsection \<open>Evaluation of a transformation\<close>

text \<open>
  The calls that leave the engine are recorded in a trace, in the order they are made:
  the parser on an expression string, the resolver on a NocPath and a target, the
  expression evaluator on an expression string.
\<close>

datatype event = EvParse string | EvResolve NocPath string | EvEvaluate string

definition getNocPaths :: "Transformation \<Rightarrow> (string \<rightharpoonup> NocPath)" where
  "getNocPaths transformation =
     foldl (\<lambda>paths nocPath.
              if np_bind nocPath = [] then paths else paths(np_bind nocPath \<mapsto> nocPath))
           Map.empty (noc_paths transformation)"

definition parseAndValidateExpression ::
  "'f platform \<Rightarrow> 'f Orismologer \<Rightarrow> string \<Rightarrow> error + ('f Expression \<times> string list \<times> string list)" where
  "parseAndValidateExpression pf o' expressionString =
     (case Parse pf expressionString of
        Inl err \<Rightarrow> Inl err
      | Inr expression \<Rightarrow>
          (let (variables, functionNames) = Identifiers expression
           in case find (\<lambda>functionName. \<not> functions_Contains o' functionName) functionNames of
                Some functionName \<Rightarrow> Inl (FunctionNotDefined functionName)
              | None \<Rightarrow> Inr (expression, variables, functionNames)))"

definition handleNocPath ::
  "'f Orismologer \<Rightarrow> NocPath \<Rightarrow> string \<Rightarrow> string \<Rightarrow> event list \<Rightarrow> 'f val outcome \<times> event list" where
  "handleNocPath o' nocPath target vendor tr =
     (if \<not> canResolve (vendorInfo o') nocPath vendor
      then (Err (UnresolvableNocPath (np_bind nocPath) vendor), tr)
      else case nocPathResolver o' nocPath target of
             Err err \<Rightarrow> (Err (ResolveFailed (np_bind nocPath) target err), tr @ [EvResolve nocPath target])
           | Crash c \<Rightarrow> (Crash c, tr @ [EvResolve nocPath target])
           | Ok v \<Rightarrow> (Ok v, tr @ [EvResolve nocPath target]))"

text \<open>
  The stand-in resolver of the source (\<open>resolve\<close>): the first sample of the NocPath, or
  a placeholder.
\<close>

definition resolve :: "NocPath \<Rightarrow> string \<Rightarrow> 'f val outcome" where
  "resolve nocPath target =
     (case samples nocPath of
        [] \<Rightarrow> Ok (VString ''dummy'')
      | sample # _ \<Rightarrow> Ok (VString sample))"

text \<open>
  \<open>eval\<close> and \<open>evalVariables\<close> call each other, and nothing in the source bounds the
  depth of these calls. In the model \<open>eval\<close> takes the number of nested activations of
  \<open>eval\<close> that are still allowed; the result \<open>None\<close> says that this number did not
  suffice. \<open>evalVariables\<close> and the loop of \<open>eval\<close> over the expressions take the
  function \<open>ev\<close> that evaluates a sub-transformation.
\<close>

type_synonym 'f eval_result = "('f val outcome \<times> event list) option"

fun evalVariables ::
  "'f Orismologer \<Rightarrow> (Transformation \<Rightarrow> event list \<Rightarrow> 'f eval_result) \<Rightarrow> string list \<Rightarrow>
   (string \<rightharpoonup> NocPath) \<Rightarrow> string \<Rightarrow> string \<Rightarrow> 'f Context \<Rightarrow> event list \<Rightarrow>
   ('f Context outcome \<times> event list) option" where
  "evalVariables o' ev [] nocPaths target vendor values tr = Some (Ok values, tr)"
| "evalVariables o' ev (variable # rest) nocPaths target vendor values tr =
     (case nocPaths variable of
        Some nocPath \<Rightarrow>
          (case handleNocPath o' nocPath target vendor tr of
             (Err err, tr') \<Rightarrow> Some (Err err, tr')
           | (Crash c, tr') \<Rightarrow> Some (Crash c, tr')
           | (Ok v, tr') \<Rightarrow>
               evalVariables o' ev rest nocPaths target vendor (values(variable \<mapsto> v)) tr')
      | None \<Rightarrow>
          (case transformations o' variable of
             Some transformation \<Rightarrow>
               (case ev transformation tr of
                  None \<Rightarrow> None
                | Some (Err err, tr') \<Rightarrow> Some (Err (SubTransformationFailed variable err), tr')
                | Some (Crash c, tr') \<Rightarrow> Some (Crash c, tr')
                | Some (Ok v, tr') \<Rightarrow>
                    evalVariables o' ev rest nocPaths target vendor (values(variable \<mapsto> v)) tr')
           | None \<Rightarrow> Some (Err (Undefined variable), tr)))"

fun eval_expressions ::
  "'f platform \<Rightarrow> 'f Orismologer \<Rightarrow> (Transformation \<Rightarrow> event list \<Rightarrow> 'f eval_result) \<Rightarrow> string \<Rightarrow>
   (string \<rightharpoonup> NocPath) \<Rightarrow> string list \<Rightarrow> string \<Rightarrow> string \<Rightarrow> event list \<Rightarrow> 'f eval_result" where
  "eval_expressions pf o' ev transformationName nocPaths [] target vendor tr =
     Some (Err (NoneEvaluable transformationName), tr)"
| "eval_expressions pf o' ev transformationName nocPaths (expressionString # rest) target vendor tr =
     (case parseAndValidateExpression pf o' expressionString of
        Inl err \<Rightarrow>
          eval_expressions pf o' ev transformationName nocPaths rest target vendor
            (tr @ [EvParse expressionString])
      | Inr (expression, variables, functionNames) \<Rightarrow>
          (case evalVariables o' ev variables nocPaths target vendor Map.empty
                  (tr @ [EvParse expressionString]) of
             None \<Rightarrow> None
           | Some (Crash c, tr') \<Rightarrow> Some (Crash c, tr')
           | Some (Err err, tr') \<Rightarrow>
               eval_expressions pf o' ev transformationName nocPaths rest target vendor tr'
           | Some (Ok values, tr') \<Rightarrow>
               (case Eval (float64 pf) expression values (functions_Call o') of
                  Err err \<Rightarrow> Some (Err err, tr' @ [EvEvaluate expressionString])
                | Crash c \<Rightarrow> Some (Crash c, tr' @ [EvEvaluate expressionString])
                | Ok transformationResult \<Rightarrow>
                    Some (Ok transformationResult, tr' @ [EvEvaluate expressionString]))))"

primrec eval ::
  "nat \<Rightarrow> 'f platform \<Rightarrow> 'f Orismologer \<Rightarrow> Transformation \<Rightarrow> string \<Rightarrow> string \<Rightarrow> event list \<Rightarrow>
   'f eval_result" where
  "eval 0 pf o' transformation target vendor tr = None"
| "eval (Suc n) pf o' transformation target vendor tr =
     eval_expressions pf o' (\<lambda>sub tr'. eval n pf o' sub target vendor tr')
       (t_bind transformation) (getNocPaths transformation) (expressions transformation)
       target vendor tr"

text \<open>The exported \<open>Eval\<close> of the engine: from an OpenConfig path to the value.\<close>

definition Orismologer_Eval ::
  "nat \<Rightarrow> 'f platform \<Rightarrow> 'f Orismologer \<Rightarrow> string \<Rightarrow> string \<Rightarrow> string \<Rightarrow> 'f eval_result" where
  "Orismologer_Eval n pf o' openConfigPath target vendor =
     (case GetTransformationIdentifier (mappings o') openConfigPath of
        Inl err \<Rightarrow> Some (Err (NoTransformationForPath openConfigPath err), [])
      | Inr transformationName \<Rightarrow>
          (case transformations o' transformationName of
             None \<Rightarrow> Some (Err (TransformationNotFound transformationName openConfigPath), [])
           | Some transformation \<Rightarrow> eval n pf o' transformation target vendor []))"

subsection \<open>Engines without circular references\<close>

text \<open>
  The references of an engine descend along \<open>rank\<close>: whenever an expression of a
  registered transformation parses and one of its variables is not a NocPath of that
  transformation but the name of a registered transformation, the latter has a smaller
  rank. Then no transformation reaches itself through references.
\<close>

definition references_descend ::
  "'f platform \<Rightarrow> 'f Orismologer \<Rightarrow> (Transformation \<Rightarrow> nat) \<Rightarrow> bool" where
  "references_descend pf o' rank =
     (\<forall>name t e expression variables fns v sub.
        transformations o' name = Some t \<and> e \<in> set (expressions t)
        \<and> parseAndValidateExpression pf o' e = Inr (expression, variables, fns)
        \<and> v \<in> set variables \<and> getNocPaths t v = None \<and> transformations o' v = Some sub
        \<longrightarrow> rank sub < rank t)"


section \<open>Concrete configurations used in the examples\<close>

text \<open>The mappings \<^verbatim>\<open>{subpath:"/a", children:{subpath:"b/c", bind:"r"}}\<close>.\<close>

definition canonical_mappings :: "OpenConfigNode list" where
  "canonical_mappings = [OpenConfigNode ''/a'' '''' [OpenConfigNode ''b/c'' ''r'' []]]"

text \<open>The vendor table of the engine's tests.\<close>

definition test_vendorInfo :: VendorOids where
  "test_vendorInfo =
     \<lparr>vendor_root = ''1.3.6.1.4.1'', vendors = [''cisco'' \<mapsto> ''9'', ''aruba'' \<mapsto> ''14823'']\<rparr>"

text \<open>A Cisco OID followed by an OID of the standard MIB, and the same two in the other order.\<close>

definition cisco_then_standard :: NocPath where
  "cisco_then_standard =
     \<lparr>np_bind = ''cpu'', oids = [''1.3.6.1.4.1.9.9.48.1.1.1.5.1'', ''1.3.6.1.2.1.25.3.3.1.2''],
      samples = []\<rparr>"

definition standard_then_cisco :: NocPath where
  "standard_then_cisco =
     \<lparr>np_bind = ''cpu'', oids = [''1.3.6.1.2.1.25.3.3.1.2'', ''1.3.6.1.4.1.9.9.48.1.1.1.5.1''],
      samples = []\<rparr>"

text \<open>An OID of the enterprise 91, whose digits start with those of Cisco's 9.\<close>

definition enterprise_91 :: NocPath where
  "enterprise_91 = \<lparr>np_bind = ''x'', oids = [''1.3.6.1.4.1.91.1.2''], samples = []\<rparr>"

text \<open>
  An instance of the float operations on whole numbers, enough to run the examples:
  on them \<open>float64\<close> arithmetic is exact and \<^verbatim>\<open>fmt.Sprint\<close> prints the decimal digits.
  Its division truncates, so the examples divide only by zero.
\<close>

definition whole_ops :: "int float64_ops" where
  "whole_ops =
     \<lparr>f_add = (+), f_sub = (-), f_mul = (*), f_div = (div), f_pow = (\<lambda>b e. b ^ nat e),
      f_is_zero = (\<lambda>x. x = 0), f_of_int = (\<lambda>i. i), f_sprint = show_int\<rparr>"

text \<open>The trees that the grammar gives for the expressions of the examples.\<close>

definition num_factor :: "'f \<Rightarrow> 'f Factor" where
  "num_factor x = Factor (Number x) None"

definition num_term :: "'f \<Rightarrow> 'f Term" where
  "num_term x = Term (num_factor x) []"

definition str_term :: "string \<Rightarrow> 'f Term" where
  "str_term s = Term (Factor (StrLiteral s) None) []"

definition var_expr :: "string \<Rightarrow> 'f Expression" where
  "var_expr name = Expression (Term (Factor (Variable name) None) []) []"

text \<open>\<^verbatim>\<open>'The answer is ' + a + b\<close> and \<^verbatim>\<open>'The answer is ' + (a + b)\<close>.\<close>

definition answer_flat :: "'f \<Rightarrow> 'f \<Rightarrow> 'f Expression" where
  "answer_flat a b =
     Expression (str_term ''The answer is '') [OpTerm OpAdd (num_term a), OpTerm OpAdd (num_term b)]"

definition answer_bracketed :: "'f \<Rightarrow> 'f \<Rightarrow> 'f Expression" where
  "answer_bracketed a b =
     Expression (str_term ''The answer is '')
       [OpTerm OpAdd
          (Term (Factor (Subexpression (Expression (num_term a) [OpTerm OpAdd (num_term b)])) None) [])]"

text \<open>\<^verbatim>\<open>a / b\<close>, \<^verbatim>\<open>a / (b - c)\<close> and \<^verbatim>\<open>'a' / b\<close>.\<close>

definition quotient_direct :: "'f \<Rightarrow> 'f \<Rightarrow> 'f Expression" where
  "quotient_direct a b = Expression (Term (num_factor a) [OpFactor OpDiv (num_factor b)]) []"



text \<open>A function caller that knows no function.\<close>

definition no_functions :: "'f FunctionCaller" where
  "no_functions name args = Err (CallerError name)"

text \<open>
  A platform for the examples: whole numbers for floats, and a parser that knows the
  expressions of the examples, with the trees that the grammar gives for them.
\<close>

definition num_expr :: "'f \<Rightarrow> 'f Expression" where
  "num_expr x = Expression (num_term x) []"

definition example_participle :: "string \<Rightarrow> string + int Expression" where
  "example_participle input =
     (if input = ''1'' then Inr (num_expr 1)
      else if input = ''1 / 0'' then Inr (quotient_direct 1 0)
      else if input = ''loop'' then Inr (var_expr ''loop'')
      else if input = ''leaf'' then Inr (var_expr ''leaf'')
      else Inl ''unexpected token'')"

definition example_platform :: "int platform" where
  "example_platform = \<lparr>float64 = whole_ops, participle = example_participle\<rparr>"

text \<open>
  Three transformations: \<open>ratio\<close> with the expressions \<^verbatim>\<open>1 / 0\<close> and \<^verbatim>\<open>1\<close>; \<open>loop\<close>,
  whose expression is a reference to itself; \<open>leafy\<close>, whose first expression reads a
  NocPath that has no OID and whose second is \<^verbatim>\<open>1\<close>.
\<close>

definition ratio_rule :: Transformation where
  "ratio_rule = \<lparr>t_bind = ''ratio'', expressions = [''1 / 0'', ''1''], noc_paths = []\<rparr>"

definition loop_rule :: Transformation where
  "loop_rule = \<lparr>t_bind = ''loop'', expressions = [''loop''], noc_paths = []\<rparr>"

definition bare_leaf :: NocPath where
  "bare_leaf = \<lparr>np_bind = ''leaf'', oids = [], samples = [''5'']\<rparr>"

definition leafy_rule :: Transformation where
  "leafy_rule = \<lparr>t_bind = ''leafy'', expressions = [''leaf'', ''1''], noc_paths = [bare_leaf]\<rparr>"

definition example_mappings :: "OpenConfigNode list" where
  "example_mappings =
     [OpenConfigNode ''/ratio'' ''ratio'' [], OpenConfigNode ''/loop'' ''loop'' [],
      OpenConfigNode ''/leafy'' ''leafy'' []]"

definition example_engine :: "int Orismologer" where
  "example_engine =
     \<lparr>mappings = fst (NewTree example_mappings),
      transformations = [''ratio'' \<mapsto> ratio_rule, ''loop'' \<mapsto> loop_rule, ''leafy'' \<mapsto> leafy_rule],
      vendorInfo = test_vendorInfo,
      nocPathResolver = resolve,
      functions_Contains = (\<lambda>name. False),
      functions_Call = no_functions\<rparr>"

text \<open>
  A second configuration, for expressions that read a sub-transformation before a
  NocPath. The transformation \<open>bang\<close> raises the sample of a NocPath of the standard
  MIB, a string, to a power; \<open>crashy\<close> has the expressions \<^verbatim>\<open>bang + leaf\<close> and \<^verbatim>\<open>1\<close>,
  and \<open>stuck\<close> the expressions \<^verbatim>\<open>loop + leaf\<close> and \<^verbatim>\<open>1\<close>, where \<open>leaf\<close> is the NocPath
  without OIDs.
\<close>

definition raw_sample :: NocPath where
  "raw_sample = \<lparr>np_bind = ''raw'', oids = [''1.3.6.1.2.1.1.3''], samples = [''5'']\<rparr>"

definition bang_rule :: Transformation where
  "bang_rule = \<lparr>t_bind = ''bang'', expressions = [''raw ^ 2''], noc_paths = [raw_sample]\<rparr>"

definition crashy_rule :: Transformation where
  "crashy_rule =
     \<lparr>t_bind = ''crashy'', expressions = [''bang + leaf'', ''1''], noc_paths = [bare_leaf]\<rparr>"

definition stuck_rule :: Transformation where
  "stuck_rule =
     \<lparr>t_bind = ''stuck'', expressions = [''loop + leaf'', ''1''], noc_paths = [bare_leaf]\<rparr>"

definition sum_expr :: "string \<Rightarrow> string \<Rightarrow> 'f Expression" where
  "sum_expr a b =
     Expression (Term (Factor (Variable a) None) [])
       [OpTerm OpAdd (Term (Factor (Variable b) None) [])]"

definition power_expr :: "string \<Rightarrow> 'f \<Rightarrow> 'f Expression" where
  "power_expr name x = Expression (Term (Factor (Variable name) (Some (Number x))) []) []"

definition second_participle :: "string \<Rightarrow> string + int Expression" where
  "second_participle input =
     (if input = ''raw ^ 2'' then Inr (power_expr ''raw'' 2)
      else if input = ''bang + leaf'' then Inr (sum_expr ''bang'' ''leaf'')
      else if input = ''loop + leaf'' then Inr (sum_expr ''loop'' ''leaf'')
      else example_participle input)"

definition second_platform :: "int platform" where
  "second_platform = \<lparr>float64 = whole_ops, participle = second_participle\<rparr>"

definition second_engine :: "int Orismologer" where
  "second_engine =
     example_engine
       \<lparr>transformations :=
          (transformations example_engine)
            (''bang'' \<mapsto> bang_rule, ''crashy'' \<mapsto> crashy_rule, ''stuck'' \<mapsto> stuck_rule)\<rparr>"


section \<open>Properties of path normalisation\<close>

lemma HasSuffix_sep: "HasSuffix s ''/'' \<longleftrightarrow> s \<noteq> [] \<and> last s = CHR ''/''"
proof (cases s rule: rev_cases)
  case Nil
  then show ?thesis by (simp add: HasSuffix_def)
next
  case (snoc ys y)
  then show ?thesis by (auto simp: HasSuffix_def)
qed

lemma HasPrefix_sep: "HasPrefix s ''/'' \<longleftrightarrow> s \<noteq> [] \<and> hd s = CHR ''/''"
  by (cases s) (auto simp: HasPrefix_def)

lemma TrimSuffix_sep: "HasSuffix s ''/'' \<Longrightarrow> TrimSuffix s ''/'' = butlast s"
  by (simp add: TrimSuffix_def butlast_conv_take)

lemma HasPrefix_append: "HasPrefix s sub \<Longrightarrow> HasPrefix (s @ t) sub"
  by (auto simp: HasPrefix_def)

lemma Contains_append: "Contains s sub \<Longrightarrow> Contains (s @ t) sub"
proof (induction s)
  case Nil
  then show ?case by (cases t) (auto simp: HasPrefix_def)
next
  case (Cons c s)
  then show ?case using HasPrefix_append[of "c # s" sub t] by auto
qed

lemma Contains_at_end: "Contains (u @ sub) sub"
proof (induction u)
  case Nil
  show ?case by (cases sub) (auto simp: HasPrefix_def)
next
  case (Cons c u)
  then show ?case by simp
qed

lemma Contains_after_root: "Contains (''root'' @ s) ''//'' = Contains s ''//''"
  by (simp add: HasPrefix_def)

lemma normalizePath_fixed:
  assumes "\<not> Contains q ''//''" "\<not> HasSuffix q ''/''" "\<not> HasPrefix q ''/''"
  shows "normalizePath q = Inr q"
proof -
  have "q \<noteq> ''/''" using assms(3) by (auto simp: HasPrefix_def)
  then show ?thesis using assms by (simp add: normalizePath_def pathSep_def)
qed

lemma trimmed_snoc: "HasSuffix p ''/'' \<Longrightarrow> p = butlast p @ ''/''"
  by (simp add: HasSuffix_sep) (metis append_butlast_last_id)

lemma normalizePath_result_fixed:
  assumes "normalizePath p = Inr q"
  shows "normalizePath q = Inr q"
proof (cases "p = ''/''")
  case True
  then have "q = ''root''"
    using assms by (simp add: normalizePath_def pathSep_def RootName_def)
  then show ?thesis
    by (simp add: normalizePath_def pathSep_def RootName_def HasPrefix_def HasSuffix_def)
next
  case False
  have nc: "\<not> Contains p ''//''"
    using assms False by (auto simp: normalizePath_def pathSep_def split: if_splits)
  define p' where "p' = (if HasSuffix p ''/'' then TrimSuffix p ''/'' else p)"
  have q: "q = (if HasPrefix p' ''/'' then ''root'' @ p' else p')"
    using assms False nc
    by (auto simp: normalizePath_def pathSep_def RootName_def p'_def Let_def split: if_splits)
  have nc': "\<not> Contains p' ''//''"
  proof (cases "HasSuffix p ''/''")
    case True
    then have "p = p' @ ''/''" using trimmed_snoc by (simp add: p'_def TrimSuffix_sep)
    then show ?thesis using nc Contains_append by metis
  next
    case False
    then show ?thesis using nc by (simp add: p'_def)
  qed
  have ns': "\<not> HasSuffix p' ''/''"
  proof (cases "HasSuffix p ''/''")
    case True
    then have e: "p = p' @ ''/''" using trimmed_snoc by (simp add: p'_def TrimSuffix_sep)
    show ?thesis
    proof
      assume "HasSuffix p' ''/''"
      then have "p' = butlast p' @ ''/''" by (rule trimmed_snoc)
      then have "p = butlast p' @ ''//''" using e by (metis append.assoc append_Cons append_Nil)
      then show False using nc Contains_at_end by metis
    qed
  next
    case False
    then show ?thesis by (simp add: p'_def)
  qed
  show ?thesis
  proof (cases "HasPrefix p' ''/''")
    case True
    then have ne: "p' \<noteq> []" by (simp add: HasPrefix_sep)
    have "\<not> HasSuffix (''root'' @ p') ''/''" using ns' ne by (simp add: HasSuffix_sep)
    moreover have "\<not> HasPrefix (''root'' @ p') ''/''" by (simp add: HasPrefix_def)
    moreover have "\<not> Contains (''root'' @ p') ''//''"
      by (simp only: Contains_after_root nc' not_False_eq_True)
    ultimately show ?thesis using q True normalizePath_fixed by simp
  next
    case False
    then show ?thesis using q nc' ns' normalizePath_fixed by simp
  qed
qed

lemma normalizePath_adjacent_separators:
  "Contains p (pathSep @ pathSep) \<Longrightarrow> normalizePath p = Inl (InvalidPath p)"
  by (auto simp: normalizePath_def pathSep_def HasPrefix_def)

text \<open>
  Claim C7. Normalising the result of a successful normalisation changes nothing;
  \<open>/\<close> normalises to \<open>root\<close>; \<open>/a/b/\<close> and \<open>/a/b\<close> both normalise to \<open>root/a/b\<close>;
  and every path that contains two adjacent separators, \<open>a//b\<close> among them, is an
  error.
\<close>

theorem normalizePath_laws:
  "(normalizePath p = Inr q \<longrightarrow> normalizePath q = normalizePath p)
   \<and> normalizePath ''/'' = Inr ''root''
   \<and> normalizePath ''/a/b/'' = Inr ''root/a/b''
   \<and> normalizePath ''/a/b'' = Inr ''root/a/b''
   \<and> (Contains r (pathSep @ pathSep) \<longrightarrow> normalizePath r = Inl (InvalidPath r))
   \<and> normalizePath ''a//b'' = Inl (InvalidPath ''a//b'')"
proof -
  have "normalizePath p = Inr q \<longrightarrow> normalizePath q = normalizePath p"
    using normalizePath_result_fixed by fastforce
  moreover have "normalizePath ''/'' = Inr ''root''"
    by (simp add: normalizePath_def pathSep_def RootName_def)
  moreover have "normalizePath ''/a/b/'' = Inr ''root/a/b''"
    by (simp add: normalizePath_def pathSep_def RootName_def HasPrefix_def HasSuffix_def
        TrimSuffix_def)
  moreover have "normalizePath ''/a/b'' = Inr ''root/a/b''"
    by (simp add: normalizePath_def pathSep_def RootName_def HasPrefix_def HasSuffix_def)
  moreover have "Contains r (pathSep @ pathSep) \<longrightarrow> normalizePath r = Inl (InvalidPath r)"
    using normalizePath_adjacent_separators by blast
  moreover have "normalizePath ''a//b'' = Inl (InvalidPath ''a//b'')"
    by (simp add: normalizePath_def pathSep_def HasPrefix_def)
  ultimately show ?thesis by blast
qed

theorem normalizePath_laws_witness:
  "normalizePath ''/a/b/'' = Inr ''root/a/b''
   \<and> normalizePath ''root/a/b'' = normalizePath ''/a/b/''
   \<and> Contains ''x//'' (pathSep @ pathSep)
   \<and> normalizePath ''x//'' = Inl (InvalidPath ''x//'')"
proof -
  have c: "Contains ''x//'' (pathSep @ pathSep)"
    by (simp add: pathSep_def HasPrefix_def)
  show ?thesis
    using normalizePath_laws [of "''/a/b/''" "''root/a/b''" "''x//''"] c by blast
qed

section \<open>Properties of the tree\<close>

lemmas octree_defs =
  NewTree_def expandPath_def normalizePath_def pathSep_def RootName_def
  HasPrefix_def HasSuffix_def TrimSuffix_def Split_def addChild_def setPayload_def IsValid_def
  AddEdge_def AddWeightedEdge_def AddNode_def NewAdjList_def Let_def

lemma canonical_keys:
  "dom (edges (graph (fst (NewTree canonical_mappings))))
     = {''root'', ''root/a'', ''root/a/b'', ''root/a/b/c''}"
  by (simp add: canonical_mappings_def octree_defs insert_commute)

lemma canonical_payloads:
  "dom (payloads (fst (NewTree canonical_mappings))) = {''root/a'', ''root/a/b/c''}"
  by (simp add: canonical_mappings_def octree_defs insert_commute)

text \<open>
  Claim C6. The tree built from \<^verbatim>\<open>{subpath:"/a"}\<close> with the child
  \<^verbatim>\<open>{subpath:"b/c", bind:"r"}\<close> is built without error and has exactly the nodes
  \<open>root\<close>, \<open>root/a\<close>, \<open>root/a/b\<close> and \<open>root/a/b/c\<close> (as the list of nodes and as the
  keys of the edge map). The transformation of \<open>root/a/b/c\<close> is \<open>r\<close>; asking for the
  one of \<open>root/a/b\<close> is the error that the node has no payload. Only the last node of
  each declared subpath has a payload.
\<close>

theorem canonical_tree:
  "snd (NewTree canonical_mappings) = None
   \<and> nodes (graph (fst (NewTree canonical_mappings)))
       = [''root'', ''root/a'', ''root/a/b'', ''root/a/b/c'']
   \<and> dom (edges (graph (fst (NewTree canonical_mappings))))
       = {''root'', ''root/a'', ''root/a/b'', ''root/a/b/c''}
   \<and> GetTransformationIdentifier (fst (NewTree canonical_mappings)) ''root/a/b/c'' = Inr ''r''
   \<and> GetTransformationIdentifier (fst (NewTree canonical_mappings)) ''root/a/b''
       = Inl (PayloadMissing ''root/a/b'')
   \<and> dom (payloads (fst (NewTree canonical_mappings))) = {''root/a'', ''root/a/b/c''}"
proof -
  have "snd (NewTree canonical_mappings) = None"
    by code_simp
  moreover have "nodes (graph (fst (NewTree canonical_mappings)))
      = [''root'', ''root/a'', ''root/a/b'', ''root/a/b/c'']"
    by code_simp
  moreover have "GetTransformationIdentifier (fst (NewTree canonical_mappings)) ''root/a/b/c''
      = Inr ''r''"
    by code_simp
  moreover have "GetTransformationIdentifier (fst (NewTree canonical_mappings)) ''root/a/b''
      = Inl (PayloadMissing ''root/a/b'')"
    by code_simp
  ultimately show ?thesis
    using canonical_keys canonical_payloads by blast
qed

section \<open>Properties of the vendor filter\<close>


text \<open>What \<open>canResolve\<close> computes, for a vendor of the table and for any other vendor.\<close>

lemma canResolve_known_vendor:
  assumes "vendors vi vendor = Some sub"
  shows "canResolve vi np vendor \<longleftrightarrow>
           (\<exists>oid \<in> set (oids np). \<not> HasPrefix oid (vendor_root vi)
                                 \<or> HasPrefix oid (vendor_root vi @ ''.'' @ sub))"
proof -
  have "canResolve_oids vi vendor xs \<longleftrightarrow>
          (\<exists>oid \<in> set xs. \<not> HasPrefix oid (vendor_root vi)
                          \<or> HasPrefix oid (vendor_root vi @ ''.'' @ sub))" for xs
    using assms by (induction xs) auto
  then show ?thesis by (simp add: canResolve_def)
qed

lemma canResolve_unknown_vendor:
  assumes "vendors vi vendor = None"
  shows "canResolve vi np vendor \<longleftrightarrow>
           (\<exists>oid rest. oids np = oid # rest \<and> \<not> HasPrefix oid (vendor_root vi))"
  using assms by (cases "oids np") (auto simp: canResolve_def)

text \<open>
  Claim C3, at the input where the code departs from it. The vendor \<open>invalid\<close> is not in
  the vendor table. For the NocPath whose first OID is under the vendor root and whose
  second OID is of the standard MIB, \<open>canResolve\<close> returns false at the first OID and
  never looks at the second; with the same two OIDs in the other order it returns true, and
  for a known vendor whose sub-identifier does not match the first OID it goes on to the
  second and returns true.
\<close>

theorem canResolve_unknown_vendor_returns_early:
  "canResolve test_vendorInfo cisco_then_standard ''invalid'' = False
   \<and> canResolve test_vendorInfo standard_then_cisco ''invalid'' = True
   \<and> canResolve test_vendorInfo cisco_then_standard ''aruba'' = True"
  by (simp add: canResolve_def test_vendorInfo_def cisco_then_standard_def
      standard_then_cisco_def HasPrefix_def)

text \<open>
  Claim C4, at the input where the code departs from it. Cisco's sub-identifier is \<open>9\<close>;
  the OID \<open>1.3.6.1.4.1.91.1.2\<close> belongs to the enterprise 91, and \<open>canResolve\<close> admits
  it for Cisco, because it compares by string prefix without the closing dot. For Aruba,
  whose sub-identifier is not a prefix of 91, it rejects the same OID.
\<close>

theorem canResolve_admits_longer_subidentifier:
  "canResolve test_vendorInfo enterprise_91 ''cisco'' = True
   \<and> canResolve test_vendorInfo enterprise_91 ''aruba'' = False"
  by (simp add: canResolve_def test_vendorInfo_def enterprise_91_def HasPrefix_def)

section \<open>Properties of the expression evaluator\<close>

text \<open>
  Claim C5, at the inputs where the code departs from it. A factor with an exponent
  whose base or whose exponent evaluates to a string does not return an error: the type
  assertion panics. With two floats the result is their power.
\<close>

theorem Factor_eval_string_operand_panics:
  "Factor_eval ops ctx caller (Factor (StrLiteral s) (Some (Number x))) = Crash TypeAssertionPanic
   \<and> Factor_eval ops ctx caller (Factor (Number x) (Some (StrLiteral s))) = Crash TypeAssertionPanic
   \<and> Factor_eval ops ctx caller (Factor (Number x) (Some (Number y)))
       = Ok (VFloat (f_pow ops x y))"
  by simp

lemma Operator_eval_not_int: "Operator_eval ops o' l r = Ok v \<Longrightarrow> \<not> is_int v"
  by (auto simp: Operator_eval_def split: if_splits val.splits Operator.splits)

lemma cast_variable_not_int: "cast_variable ops name v = Ok r \<Longrightarrow> \<not> is_int r"
  by (cases v) auto

lemma widen_result_not_int: "\<not> is_int (widen_result ops v)"
  by (cases v) auto

lemma pow_assert_not_int: "pow_assert ops b e = Ok r \<Longrightarrow> \<not> is_int r"
  by (cases "(ops, b, e)" rule: pow_assert.cases) auto

lemma Term_loop_not_int:
  "\<not> is_int n \<Longrightarrow> Term_loop ops ctx caller n rs = Ok r \<Longrightarrow> \<not> is_int r"
proof (induction rs arbitrary: n)
  case Nil then show ?case by simp
next
  case (Cons a rs)
  obtain o' f where a: "a = OpFactor o' f" by (cases a)
  from Cons.prems(2) obtain x n' where
    "Operator_eval ops o' n x = Ok n'" "Term_loop ops ctx caller n' rs = Ok r"
    unfolding a by (auto split: outcome.splits)
  then show ?case using Operator_eval_not_int Cons.IH by blast
qed

lemma Expression_loop_not_int:
  "\<not> is_int l \<Longrightarrow> Expression_loop ops ctx caller l rs = Ok r \<Longrightarrow> \<not> is_int r"
proof (induction rs arbitrary: l)
  case Nil then show ?case by simp
next
  case (Cons a rs)
  obtain o' t where a: "a = OpTerm o' t" by (cases a)
  from Cons.prems(2) obtain x l' where
    "Operator_eval ops o' l x = Ok l'" "Expression_loop ops ctx caller l' rs = Ok r"
    unfolding a by (auto split: outcome.splits)
  then show ?case using Operator_eval_not_int Cons.IH by blast
qed

lemma eval_not_int:
  "\<forall>r. Value_eval ops ctx caller v = Ok r \<longrightarrow> \<not> is_int r"
  "\<forall>r. Function_eval ops ctx caller fn = Ok r \<longrightarrow> \<not> is_int r"
  "\<forall>r. Args_eval ops ctx caller vs args = Ok r \<longrightarrow> True"
  "\<forall>r. Factor_eval ops ctx caller fa = Ok r \<longrightarrow> \<not> is_int r"
  "\<forall>r. Term_eval ops ctx caller t = Ok r \<longrightarrow> \<not> is_int r"
  "\<forall>r. Term_loop ops ctx caller n rs = Ok r \<longrightarrow> True"
  "\<forall>r. Expression_eval ops ctx caller e = Ok r \<longrightarrow> \<not> is_int r"
  "\<forall>r. Expression_loop ops ctx caller l ts = Ok r \<longrightarrow> True"
proof (induction ops ctx caller v and ops ctx caller fn and ops ctx caller vs args and ops ctx caller fa
    and ops ctx caller t and ops ctx caller n rs and ops ctx caller e and ops ctx caller l ts
    rule: Value_eval_Function_eval_Args_eval_Factor_eval_Term_eval_Term_loop_Expression_eval_Expression_loop.induct)
  case (3 ops ctx caller name)
  then show ?case by (auto split: option.splits dest: cast_variable_not_int)
next
  case (7 ops ctx caller name args)
  then show ?case by (auto split: outcome.splits simp: widen_result_not_int)
next
  case (10 ops ctx caller base exponent)
  then show ?case by (auto split: outcome.splits option.splits dest: pow_assert_not_int)
next
  case (11 ops ctx caller left right)
  then show ?case by (auto split: outcome.splits dest: Term_loop_not_int)
next
  case (14 ops ctx caller left right)
  then show ?case by (auto split: outcome.splits dest: Expression_loop_not_int)
qed auto


lemma Term_loop_append:
  "Term_loop ops ctx caller n (pre @ xs) =
     (case Term_loop ops ctx caller n pre of
        Ok n' \<Rightarrow> Term_loop ops ctx caller n' xs
      | Err e \<Rightarrow> Err e
      | Crash c \<Rightarrow> Crash c)"
proof (induction pre arbitrary: n)
  case Nil
  show ?case by simp
next
  case (Cons a pre)
  obtain o' f where a: "a = OpFactor o' f" by (cases a)
  show ?case unfolding a by (simp add: Cons.IH split: outcome.splits)
qed

lemma Expression_loop_append:
  "Expression_loop ops ctx caller l (pre @ xs) =
     (case Expression_loop ops ctx caller l pre of
        Ok l' \<Rightarrow> Expression_loop ops ctx caller l' xs
      | Err e \<Rightarrow> Err e
      | Crash c \<Rightarrow> Crash c)"
proof (induction pre arbitrary: l)
  case Nil
  show ?case by simp
next
  case (Cons a pre)
  obtain o' t where a: "a = OpTerm o' t" by (cases a)
  show ?case unfolding a by (simp add: Cons.IH split: outcome.splits)
qed

lemma Term_eval_append:
  "Term_eval ops ctx caller (Term f0 pre) = Ok l \<Longrightarrow>
   Term_eval ops ctx caller (Term f0 (pre @ xs)) = Term_loop ops ctx caller l xs"
  by (auto simp: Term_loop_append split: outcome.splits)

lemma Expression_eval_append:
  "Expression_eval ops ctx caller (Expression t0 pre) = Ok l \<Longrightarrow>
   Expression_eval ops ctx caller (Expression t0 (pre @ xs)) = Expression_loop ops ctx caller l xs"
  by (auto simp: Expression_loop_append split: outcome.splits)

lemma Operator_eval_string:
  assumes "is_string l \<or> is_string r" "\<not> is_int l" "\<not> is_int r"
  shows "Operator_eval ops o' l r =
           (if o' = OpAdd then Ok (VString (Sprint ops l @ Sprint ops r))
            else Err (UnsupportedStringOperator o'))"
  using assms by (cases l; cases r) (auto simp: Operator_eval_def)


lemma Term_eval_result_not_int: "Term_eval ops ctx caller t = Ok r \<Longrightarrow> \<not> is_int r"
  using eval_not_int(5) by blast

lemma Factor_eval_result_not_int: "Factor_eval ops ctx caller f = Ok r \<Longrightarrow> \<not> is_int r"
  using eval_not_int(4) by blast

lemma Expression_eval_result_not_int: "Expression_eval ops ctx caller e = Ok r \<Longrightarrow> \<not> is_int r"
  using eval_not_int(7) by blast

lemma plus_step:
  assumes "Expression_eval ops ctx caller (Expression t0 pre) = Ok l"
    "Term_eval ops ctx caller t = Ok r" "is_string l \<or> is_string r"
  shows "Expression_eval ops ctx caller (Expression t0 (pre @ OpTerm o' t # rest)) =
           (if o' = OpAdd then Expression_loop ops ctx caller (VString (Sprint ops l @ Sprint ops r)) rest
            else Err (UnsupportedStringOperator o'))"
proof -
  have "\<not> is_int l" "\<not> is_int r"
    using assms Expression_eval_result_not_int Term_eval_result_not_int by blast+
  then have "Operator_eval ops o' l r =
           (if o' = OpAdd then Ok (VString (Sprint ops l @ Sprint ops r))
            else Err (UnsupportedStringOperator o'))"
    using assms(3) by (rule_tac Operator_eval_string) auto
  moreover have "Expression_eval ops ctx caller (Expression t0 (pre @ OpTerm o' t # rest))
      = Expression_loop ops ctx caller l (OpTerm o' t # rest)"
    using assms(1) by (rule Expression_eval_append)
  ultimately show ?thesis
    using assms(2) by simp
qed

lemma times_step:
  assumes "Term_eval ops ctx caller (Term f0 pre) = Ok l"
    "Factor_eval ops ctx caller f = Ok r" "is_string l \<or> is_string r" "o' \<noteq> OpAdd"
  shows "Term_eval ops ctx caller (Term f0 (pre @ OpFactor o' f # rest)) =
           Err (UnsupportedStringOperator o')"
proof -
  have "\<not> is_int l" "\<not> is_int r"
    using assms Factor_eval_result_not_int Term_eval_result_not_int by blast+
  then have "Operator_eval ops o' l r = Err (UnsupportedStringOperator o')"
    using assms(3,4) Operator_eval_string [of l r ops o'] by auto
  moreover have "Term_eval ops ctx caller (Term f0 (pre @ OpFactor o' f # rest))
      = Term_loop ops ctx caller l (OpFactor o' f # rest)"
    using assms(1) by (rule Term_eval_append)
  ultimately show ?thesis
    using assms(2) by simp
qed

lemma answer_flat_eval:
  "f_sprint ops a = ''41'' \<Longrightarrow> f_sprint ops b = ''1'' \<Longrightarrow>
   Eval ops (answer_flat a b) ctx caller = Ok (VString ''The answer is 411'')"
  by (simp add: Eval_def answer_flat_def str_term_def num_term_def num_factor_def Operator_eval_def)

lemma answer_bracketed_eval:
  "f_sprint ops (f_add ops a b) = ''42'' \<Longrightarrow>
   Eval ops (answer_bracketed a b) ctx caller = Ok (VString ''The answer is 42'')"
  by (simp add: Eval_def answer_bracketed_def str_term_def num_term_def num_factor_def Operator_eval_def)

text \<open>
  Claim C8. When \<open>+\<close> is applied in an expression and the value to its left or the
  value to its right is a string, the result is the text of the left value followed by
  the text of the right value, and the evaluation goes on with it; \<open>-\<close>, \<open>*\<close> and
  \<open>/\<close> on such operands are the error of an unsupported string operator. So
  \<^verbatim>\<open>'The answer is ' + 41 + 1\<close> is \<open>The answer is 411\<close>, and
  \<^verbatim>\<open>'The answer is ' + (41 + 1)\<close> is \<open>The answer is 42\<close>, for float operations that
  print 41, 1 and the sum of 41 and 1 as Go does.
\<close>

theorem plus_on_strings:
  "(Expression_eval ops ctx caller (Expression t0 pre) = Ok l
      \<and> Term_eval ops ctx caller t = Ok r \<and> (is_string l \<or> is_string r) \<longrightarrow>
        Expression_eval ops ctx caller (Expression t0 (pre @ OpTerm OpAdd t # rest))
          = Expression_loop ops ctx caller (VString (Sprint ops l @ Sprint ops r)) rest
      \<and> Expression_eval ops ctx caller (Expression t0 (pre @ OpTerm OpSub t # rest))
          = Err (UnsupportedStringOperator OpSub))
   \<and> (Term_eval ops ctx caller (Term f0 pre') = Ok l'
      \<and> Factor_eval ops ctx caller f = Ok r' \<and> (is_string l' \<or> is_string r') \<longrightarrow>
        Term_eval ops ctx caller (Term f0 (pre' @ OpFactor OpMul f # rest'))
          = Err (UnsupportedStringOperator OpMul)
      \<and> Term_eval ops ctx caller (Term f0 (pre' @ OpFactor OpDiv f # rest'))
          = Err (UnsupportedStringOperator OpDiv))
   \<and> (f_sprint ops a = ''41'' \<and> f_sprint ops b = ''1'' \<longrightarrow>
        Eval ops (answer_flat a b) ctx caller = Ok (VString ''The answer is 411''))
   \<and> (f_sprint ops (f_add ops a b) = ''42'' \<longrightarrow>
        Eval ops (answer_bracketed a b) ctx caller = Ok (VString ''The answer is 42''))"
  using plus_step [of ops ctx caller t0 pre l t r] times_step [of ops ctx caller f0 pre' l' f r']
    answer_flat_eval [of ops a b] answer_bracketed_eval [of ops a b]
  by simp

text \<open>The witness: \<^verbatim>\<open>'n = ' + 7\<close>, \<^verbatim>\<open>'n = ' - 7\<close>, \<^verbatim>\<open>'n = ' * 7\<close>, \<^verbatim>\<open>'n = ' / 7\<close> and
  the two examples, on whole numbers.\<close>

lemma sprint_41: "f_sprint whole_ops 41 = ''41''" by code_simp
lemma sprint_1: "f_sprint whole_ops 1 = ''1''" by code_simp
lemma sprint_42: "f_sprint whole_ops (f_add whole_ops 41 1) = ''42''" by code_simp

theorem plus_on_strings_witness:
  "Expression_eval whole_ops Map.empty no_functions (Expression (str_term ''n = '') []) = Ok (VString ''n = '')
   \<and> Term_eval whole_ops Map.empty no_functions (num_term 7) = Ok (VFloat 7)
   \<and> is_string (VString ''n = '' :: int val)
   \<and> Expression_eval whole_ops Map.empty no_functions
        (Expression (str_term ''n = '') [OpTerm OpAdd (num_term 7)]) = Ok (VString ''n = 7'')
   \<and> Expression_eval whole_ops Map.empty no_functions
        (Expression (str_term ''n = '') [OpTerm OpSub (num_term 7)]) = Err (UnsupportedStringOperator OpSub)
   \<and> Term_eval whole_ops Map.empty no_functions (str_term ''n = '') = Ok (VString ''n = '')
   \<and> Factor_eval whole_ops Map.empty no_functions (num_factor 7) = Ok (VFloat 7)
   \<and> Term_eval whole_ops Map.empty no_functions
        (Term (Factor (StrLiteral ''n = '') None) [OpFactor OpMul (num_factor 7)])
        = Err (UnsupportedStringOperator OpMul)
   \<and> Term_eval whole_ops Map.empty no_functions
        (Term (Factor (StrLiteral ''n = '') None) [OpFactor OpDiv (num_factor 7)])
        = Err (UnsupportedStringOperator OpDiv)
   \<and> f_sprint whole_ops 41 = ''41'' \<and> f_sprint whole_ops 1 = ''1''
   \<and> Eval whole_ops (answer_flat 41 1) Map.empty no_functions = Ok (VString ''The answer is 411'')
   \<and> f_sprint whole_ops (f_add whole_ops 41 1) = ''42''
   \<and> Eval whole_ops (answer_bracketed 41 1) Map.empty no_functions = Ok (VString ''The answer is 42'')"
proof -
  have s7: "f_sprint whole_ops 7 = ''7''" by code_simp
  have e: "Expression_eval whole_ops Map.empty no_functions (Expression (str_term ''n = '') [])
      = Ok (VString ''n = '')"
    by (simp add: str_term_def)
  have t: "Term_eval whole_ops Map.empty no_functions (num_term 7) = Ok (VFloat 7)"
    by (simp add: num_term_def num_factor_def)
  have t': "Term_eval whole_ops Map.empty no_functions (Term (Factor (StrLiteral ''n = '') None) [])
      = Ok (VString ''n = '')"
    by simp
  have f: "Factor_eval whole_ops Map.empty no_functions (num_factor 7) = Ok (VFloat 7)"
    by (simp add: num_factor_def)
  show ?thesis
    using plus_on_strings [of whole_ops Map.empty no_functions "str_term ''n = ''" "[]"
        "VString ''n = ''" "num_term 7" "VFloat 7" "[]" "Factor (StrLiteral ''n = '') None" "[]"
        "VString ''n = ''" "num_factor 7" "VFloat 7" "[]" 41 1]
      e t t' f s7 sprint_41 sprint_1 sprint_42
    by (simp add: str_term_def)
qed







section \<open>Properties of the translation engine\<close>

lemma parse_ratio_first:
  "parseAndValidateExpression example_platform example_engine ''1 / 0''
     = Inr (quotient_direct 1 0, [], [])"
  by (simp add: parseAndValidateExpression_def Parse_def example_platform_def example_participle_def
      quotient_direct_def num_factor_def)

lemma parse_one:
  "parseAndValidateExpression example_platform example_engine ''1'' = Inr (num_expr 1, [], [])"
  by (simp add: parseAndValidateExpression_def Parse_def example_platform_def example_participle_def
      num_expr_def num_term_def num_factor_def)

lemma parse_loop:
  "parseAndValidateExpression example_platform example_engine ''loop''
     = Inr (var_expr ''loop'', [''loop''], [])"
  by (simp add: parseAndValidateExpression_def Parse_def example_platform_def example_participle_def
      var_expr_def)


lemma Eval_one:
  "Eval (float64 example_platform) (num_expr 1) values caller = Ok (VFloat 1)"
  by (simp add: Eval_def num_expr_def num_term_def num_factor_def)

lemma Eval_ratio_first:
  "Eval (float64 example_platform) (quotient_direct 1 0) values caller
     = Err (CouldNotEvaluate DivisionByZero)"
  by (simp add: Eval_def quotient_direct_def num_factor_def Operator_eval_def example_platform_def
      whole_ops_def)

lemma ratio_path: "GetTransformationIdentifier (mappings example_engine) ''/ratio'' = Inr ''ratio''"
  by code_simp

lemma ratio_rule_registered: "transformations example_engine ''ratio'' = Some ratio_rule"
  by (simp add: example_engine_def)

text \<open>
  Claim C1, at the input where the code departs from it. The transformation \<open>ratio\<close>
  has the expressions \<^verbatim>\<open>1 / 0\<close> and \<^verbatim>\<open>1\<close>. The first parses and has no variable, so
  it is evaluated; its evaluation fails with the division by zero, and \<open>eval\<close> returns
  that error, as does the exported \<open>Eval\<close> on the path bound to \<open>ratio\<close>: the second
  expression is not parsed (the trace ends with the evaluation of the first). With the
  second expression alone the result is 1.
\<close>

theorem eval_returns_evaluation_error:
  "eval (Suc n) example_platform example_engine ratio_rule target vendor []
     = Some (Err (CouldNotEvaluate DivisionByZero), [EvParse ''1 / 0'', EvEvaluate ''1 / 0''])
   \<and> Orismologer_Eval (Suc n) example_platform example_engine ''/ratio'' target vendor
     = Some (Err (CouldNotEvaluate DivisionByZero), [EvParse ''1 / 0'', EvEvaluate ''1 / 0''])
   \<and> eval (Suc n) example_platform example_engine (ratio_rule\<lparr>expressions := [''1'']\<rparr>) target vendor []
     = Some (Ok (VFloat 1), [EvParse ''1'', EvEvaluate ''1''])"
proof -
  have first: "eval (Suc n) example_platform example_engine ratio_rule target vendor []
     = Some (Err (CouldNotEvaluate DivisionByZero), [EvParse ''1 / 0'', EvEvaluate ''1 / 0''])"
    by (simp add: ratio_rule_def parse_ratio_first Eval_ratio_first)
  have "Orismologer_Eval (Suc n) example_platform example_engine ''/ratio'' target vendor
     = eval (Suc n) example_platform example_engine ratio_rule target vendor []"
    by (simp only: Orismologer_Eval_def ratio_path ratio_rule_registered sum.case option.case)
  moreover have "eval (Suc n) example_platform example_engine (ratio_rule\<lparr>expressions := [''1'']\<rparr>)
      target vendor [] = Some (Ok (VFloat 1), [EvParse ''1'', EvEvaluate ''1''])"
    by (simp add: ratio_rule_def parse_one Eval_one)
  ultimately show ?thesis using first by simp
qed

lemma loop_rule_table: "getNocPaths loop_rule = Map.empty"
  by (simp add: getNocPaths_def loop_rule_def)

lemma loop_rule_registered: "transformations example_engine ''loop'' = Some loop_rule"
  by (simp add: example_engine_def)

lemma eval_loop_rule: "eval n example_platform example_engine loop_rule target vendor tr = None"
proof (induction n arbitrary: tr)
  case 0
  show ?case by simp
next
  case (Suc n)
  have "expressions loop_rule = [''loop'']" by (simp add: loop_rule_def)
  then show ?case
    by (simp add: parse_loop loop_rule_table loop_rule_registered Suc.IH)
qed

lemma loop_path: "GetTransformationIdentifier (mappings example_engine) ''/loop'' = Inr ''loop''"
  by code_simp

text \<open>
  Claim C2, at the input where the code departs from it. The transformation \<open>loop\<close>
  has the single expression \<^verbatim>\<open>loop\<close>, a reference to itself. Whatever number of nested
  activations is allowed, \<open>eval\<close> does not return, neither a value nor an error, and
  so does the exported \<open>Eval\<close> on the path bound to it.
\<close>

theorem eval_circular_reference_never_returns:
  "eval n example_platform example_engine loop_rule target vendor tr = None
   \<and> Orismologer_Eval n example_platform example_engine ''/loop'' target vendor = None"
  by (simp add: eval_loop_rule Orismologer_Eval_def loop_path loop_rule_registered)











lemma second_parse_stuck:
  "parseAndValidateExpression second_platform second_engine ''loop + leaf''
     = Inr (sum_expr ''loop'' ''leaf'', [''loop'', ''leaf''], [])"
  by (simp add: parseAndValidateExpression_def Parse_def second_platform_def second_participle_def
      sum_expr_def)



lemma second_parse_loop:
  "parseAndValidateExpression second_platform second_engine ''loop''
     = Inr (var_expr ''loop'', [''loop''], [])"
  by (simp add: parseAndValidateExpression_def Parse_def second_platform_def second_participle_def
      example_participle_def var_expr_def)

lemma second_registry:
  "transformations second_engine ''bang'' = Some bang_rule"
  "transformations second_engine ''loop'' = Some loop_rule"
  by (simp_all add: second_engine_def example_engine_def)





lemma stuck_table:
  "getNocPaths stuck_rule ''leaf'' = Some bare_leaf" "getNocPaths stuck_rule ''loop'' = None"
  by (simp_all add: getNocPaths_def stuck_rule_def bare_leaf_def)

lemma second_eval_loop: "eval n second_platform second_engine loop_rule target vendor tr = None"
proof (induction n arbitrary: tr)
  case 0
  show ?case by simp
next
  case (Suc n)
  have "expressions loop_rule = [''loop'']" by (simp add: loop_rule_def)
  then show ?case
    by (simp add: second_parse_loop loop_rule_table second_registry Suc.IH)
qed

text \<open>
  An expression that reads a circular sub-transformation before the NocPath without
  OIDs: the evaluation does not return, and the next expression is never tried.
\<close>

lemma second_eval_stuck: "eval n second_platform second_engine stuck_rule target vendor tr = None"
proof (cases n)
  case 0
  then show ?thesis by simp
next
  case (Suc m)
  have "expressions stuck_rule = [''loop + leaf'', ''1'']" by (simp add: stuck_rule_def)
  then show ?thesis
    using Suc by (simp add: second_parse_stuck stuck_table second_registry second_eval_loop)
qed












subsection \<open>When evaluation returns\<close>

lemma evalVariables_returns:
  assumes "\<forall>v \<in> set vars. nps v = None \<longrightarrow>
             (\<forall>sub tr. transformations o' v = Some sub \<longrightarrow> (\<exists>r. ev sub tr = Some r))"
  shows "\<exists>r. evalVariables o' ev vars nps target vendor vals tr = Some r"
  using assms
proof (induction vars arbitrary: vals tr)
  case Nil
  show ?case by simp
next
  case (Cons v vars)
  have IH: "\<And>vals tr. \<exists>r. evalVariables o' ev vars nps target vendor vals tr = Some r"
    using Cons by simp
  show ?case
  proof (cases "nps v")
    case (Some np)
    obtain r tr1 where h: "handleNocPath o' np target vendor tr = (r, tr1)"
      by (cases "handleNocPath o' np target vendor tr")
    show ?thesis
      using Some h IH by (cases r) auto
  next
    case None
    show ?thesis
    proof (cases "transformations o' v")
      case no_sub: None
      then show ?thesis using None by simp
    next
      case (Some sub)
      have "\<exists>r. ev sub tr = Some r"
        using Cons.prems None Some by simp
      then obtain r tr1 where "ev sub tr = Some (r, tr1)"
        by auto
      then show ?thesis
        using None Some IH by (cases r) auto
    qed
  qed
qed

lemma eval_expressions_returns:
  assumes "\<forall>e \<in> set es. \<forall>expression variables fns.
             parseAndValidateExpression pf o' e = Inr (expression, variables, fns) \<longrightarrow>
             (\<forall>v \<in> set variables. nps v = None \<longrightarrow>
                (\<forall>sub tr. transformations o' v = Some sub \<longrightarrow> (\<exists>r. ev sub tr = Some r)))"
  shows "\<exists>r. eval_expressions pf o' ev name nps es target vendor tr = Some r"
  using assms
proof (induction es arbitrary: tr)
  case Nil
  show ?case by simp
next
  case (Cons e es)
  have IH: "\<And>tr. \<exists>r. eval_expressions pf o' ev name nps es target vendor tr = Some r"
    using Cons by simp
  show ?case
  proof (cases "parseAndValidateExpression pf o' e")
    case (Inl err)
    then show ?thesis using IH by simp
  next
    case (Inr parsed)
    obtain expression variables fns where parsed: "parsed = (expression, variables, fns)"
      by (cases parsed)
    have "\<forall>v \<in> set variables. nps v = None \<longrightarrow>
            (\<forall>sub tr. transformations o' v = Some sub \<longrightarrow> (\<exists>r. ev sub tr = Some r))"
      using Cons.prems Inr parsed by simp
    then have "\<exists>r. evalVariables o' ev variables nps target vendor Map.empty (tr @ [EvParse e]) = Some r"
      by (rule evalVariables_returns)
    then obtain r tr1 where
      "evalVariables o' ev variables nps target vendor Map.empty (tr @ [EvParse e]) = Some (r, tr1)"
      by auto
    then show ?thesis
      using Inr parsed IH by (cases r) (auto split: outcome.splits)
  qed
qed

lemma eval_returns:
  assumes "references_descend pf o' rank"
  shows "transformations o' name = Some t \<Longrightarrow> rank t < n \<Longrightarrow>
         \<exists>r. eval n pf o' t target vendor tr = Some r"
proof (induction n arbitrary: name t tr)
  case 0
  then show ?case by simp
next
  case (Suc n)
  have "\<exists>r. eval_expressions pf o' (\<lambda>sub tr'. eval n pf o' sub target vendor tr') (t_bind t)
          (getNocPaths t) (expressions t) target vendor tr = Some r"
  proof (rule eval_expressions_returns, intro ballI allI impI)
    fix e expression variables fns v sub tr'
    assume "e \<in> set (expressions t)"
      "parseAndValidateExpression pf o' e = Inr (expression, variables, fns)"
      "v \<in> set variables" "getNocPaths t v = None" "transformations o' v = Some sub"
    then have "rank sub < rank t"
      using assms Suc.prems(1) unfolding references_descend_def by blast
    then have "rank sub < n" using Suc.prems(2) by simp
    then show "\<exists>r. eval n pf o' sub target vendor tr' = Some r"
      using Suc.IH \<open>transformations o' v = Some sub\<close> by blast
  qed
  then show ?case by simp
qed

subsection \<open>A larger allowance of depth does not change a result\<close>

lemma evalVariables_mono:
  assumes "\<And>sub tr r. ev sub tr = Some r \<Longrightarrow> ev' sub tr = Some r"
  shows "evalVariables o' ev vars nps target vendor vals tr = Some r \<Longrightarrow>
         evalVariables o' ev' vars nps target vendor vals tr = Some r"
proof (induction vars arbitrary: vals tr)
  case Nil
  then show ?case by simp
next
  case (Cons v vars)
  show ?case
  proof (cases "nps v")
    case (Some np)
    obtain x tr1 where h: "handleNocPath o' np target vendor tr = (x, tr1)"
      by (cases "handleNocPath o' np target vendor tr")
    show ?thesis
      using Some h Cons.prems Cons.IH by (cases x) auto
  next
    case None
    show ?thesis
    proof (cases "transformations o' v")
      case no_sub: None
      then show ?thesis using None Cons.prems by simp
    next
      case (Some sub)
      show ?thesis
      proof (cases "ev sub tr")
        case no_result: None
        then show ?thesis using None Some Cons.prems by simp
      next
        case result: (Some p)
        obtain x tr1 where p: "p = (x, tr1)" by (cases p)
        have "ev' sub tr = Some (x, tr1)" using assms result p by simp
        then show ?thesis
          using None Some result p Cons.prems Cons.IH by (cases x) auto
      qed
    qed
  qed
qed

lemma eval_expressions_mono:
  assumes "\<And>sub tr r. ev sub tr = Some r \<Longrightarrow> ev' sub tr = Some r"
  shows "eval_expressions pf o' ev name nps es target vendor tr = Some r \<Longrightarrow>
         eval_expressions pf o' ev' name nps es target vendor tr = Some r"
proof (induction es arbitrary: tr)
  case Nil
  then show ?case by simp
next
  case (Cons e es)
  show ?case
  proof (cases "parseAndValidateExpression pf o' e")
    case (Inl err)
    then show ?thesis using Cons.prems Cons.IH by simp
  next
    case (Inr parsed)
    obtain expression variables fns where parsed: "parsed = (expression, variables, fns)"
      by (cases parsed)
    show ?thesis
    proof (cases "evalVariables o' ev variables nps target vendor Map.empty (tr @ [EvParse e])")
      case None
      then show ?thesis using Inr parsed Cons.prems by simp
    next
      case (Some p)
      obtain x tr1 where p: "p = (x, tr1)" by (cases p)
      have "evalVariables o' ev' variables nps target vendor Map.empty (tr @ [EvParse e]) = Some (x, tr1)"
        using evalVariables_mono [of ev ev'] assms Some p by blast
      then show ?thesis
        using Inr parsed Some p Cons.prems Cons.IH by (cases x) auto
    qed
  qed
qed

lemma eval_Suc_mono:
  "eval n pf o' t target vendor tr = Some r \<Longrightarrow> eval (Suc n) pf o' t target vendor tr = Some r"
proof (induction n arbitrary: t tr r)
  case 0
  then show ?case by simp
next
  case (Suc n)
  have "eval_expressions pf o' (\<lambda>sub tr'. eval n pf o' sub target vendor tr') (t_bind t)
          (getNocPaths t) (expressions t) target vendor tr = Some r"
    using Suc.prems by simp
  then have "eval_expressions pf o' (\<lambda>sub tr'. eval (Suc n) pf o' sub target vendor tr') (t_bind t)
          (getNocPaths t) (expressions t) target vendor tr = Some r"
    using eval_expressions_mono [of "\<lambda>sub tr'. eval n pf o' sub target vendor tr'"
        "\<lambda>sub tr'. eval (Suc n) pf o' sub target vendor tr'"] Suc.IH by blast
  then show ?case by simp
qed

lemma eval_mono:
  "eval n pf o' t target vendor tr = Some r \<Longrightarrow> eval (n + k) pf o' t target vendor tr = Some r"
  by (induction k) (auto dest: eval_Suc_mono)

end
